theory Spec2Isabelle
  imports Main
begin

section \<open>Python exceptions\<close>

text \<open>
  The backend snippets signal failure by raising. A raise is a value here: every
  function that can raise returns a sum whose left injection is the exception.
  \<open>str_exn\<close> is Python's \<open>str(e)\<close>.
\<close>

datatype exn =
    Exception string
  | KeyError string
  | TypeError string

fun str_exn :: "exn \<Rightarrow> string" where
  "str_exn (Exception m) = m"
| "str_exn (KeyError k) = CHR 0x27 # k @ [CHR 0x27]"
| "str_exn (TypeError m) = m"

section \<open>The transport and the outside world\<close>

text \<open>
  Netmiko's \<open>ConnectHandler\<close>, the connection's \<open>send_command\<close> and
  \<open>disconnect\<close>, and MongoDB's \<open>insert_one\<close> are external. Every call to one of
  them is appended to a history of I/O events; what the call answers is given by an
  environment that may depend on the whole history so far (a device may be flaky, a
  closed connection may refuse a command). A connection object is identified by the
  position of its \<open>ConnectHandler\<close> call in the history. The transport's own
  \<open>disconnect\<close> is taken not to raise. Calls to \<open>logger\<close> are diagnostics and are
  left out.
\<close>

record DeviceInfo =
  device_type :: string
  host :: string
  username :: string
  password :: string
  port :: int
  secret :: "string option"

record config_backup =
  element_id :: string
  device_name :: string
  config_content :: string
  backup_type :: string
  file_size :: nat
  created_at :: nat

datatype io_event =
    Connect nat DeviceInfo "exn option"
  | Send nat string "exn + string"
  | Close nat
  | Insert config_backup "exn option"

record env =
  connect_reply :: "io_event list \<Rightarrow> DeviceInfo \<Rightarrow> exn option"
  send_reply :: "io_event list \<Rightarrow> nat \<Rightarrow> string \<Rightarrow> exn + string"
  insert_reply :: "io_event list \<Rightarrow> config_backup \<Rightarrow> exn option"
  utcnow :: "io_event list \<Rightarrow> nat"

text \<open>The commands that went over the wire, in order.\<close>

fun sent_commands :: "io_event list \<Rightarrow> string list" where
  "sent_commands [] = []"
| "sent_commands (Send c command r # evs) = command # sent_commands evs"
| "sent_commands (ev # evs) = sent_commands evs"

text \<open>
  The connections open after an event, and the largest number of connections open
  at the same time over a history.
\<close>

fun sessions_step :: "io_event \<Rightarrow> nat list \<Rightarrow> nat list" where
  "sessions_step (Connect c di None) S = c # S"
| "sessions_step (Close c) S = removeAll c S"
| "sessions_step ev S = S"

fun open_from :: "nat list \<Rightarrow> io_event list \<Rightarrow> nat list" where
  "open_from S [] = S"
| "open_from S (ev # evs) = open_from (sessions_step ev S) evs"

fun peak_from :: "nat list \<Rightarrow> io_event list \<Rightarrow> nat" where
  "peak_from S [] = length S"
| "peak_from S (ev # evs) = max (length S) (peak_from (sessions_step ev S) evs)"

definition open_sessions :: "io_event list \<Rightarrow> nat list" where
  "open_sessions h = open_from [] h"

definition peak_open :: "io_event list \<Rightarrow> nat" where
  "peak_open h = peak_from [] h"

section \<open>NetworkDevice (docs/NETWORK\_MONITORING.md, backend/network\_device.py)\<close>

record NetworkDevice =
  device_info :: DeviceInfo
  connection :: "nat option"

definition NetworkDevice_init :: "DeviceInfo \<Rightarrow> NetworkDevice" where
  "NetworkDevice_init di = \<lparr> device_info = di, connection = None \<rparr>"

text \<open>
  \<open>connect\<close> catches every exception of \<open>ConnectHandler\<close> and answers \<open>False\<close>;
  \<open>self.connection\<close> is assigned only on success.
\<close>

definition connect :: "env \<Rightarrow> NetworkDevice \<Rightarrow> io_event list \<Rightarrow> bool \<times> NetworkDevice \<times> io_event list" where
  "connect E dev h =
     (case connect_reply E h (device_info dev) of
        None \<Rightarrow> (True, dev\<lparr>connection := Some (length h)\<rparr>,
                  h @ [Connect (length h) (device_info dev) None])
      | Some e \<Rightarrow> (False, dev, h @ [Connect (length h) (device_info dev) (Some e)]))"

text \<open>
  \<open>disconnect\<close> calls the transport's \<open>disconnect\<close> when \<open>self.connection\<close> is set.
  It assigns nothing to \<open>self.connection\<close>, so the device object is the same after
  the call.
\<close>

definition disconnect :: "NetworkDevice \<Rightarrow> io_event list \<Rightarrow> io_event list" where
  "disconnect dev h =
     (case connection dev of
        Some c \<Rightarrow> h @ [Close c]
      | None \<Rightarrow> h)"

definition execute_command :: "env \<Rightarrow> NetworkDevice \<Rightarrow> string \<Rightarrow> io_event list \<Rightarrow> (exn + string) \<times> io_event list" where
  "execute_command E dev command h =
     (case connection dev of
        None \<Rightarrow> (Inl (Exception ''Not connected to device''), h)
      | Some c \<Rightarrow> (send_reply E h c command, h @ [Send c command (send_reply E h c command)]))"

text \<open>
  A Python \<open>dict\<close> keeps its keys in the order of their first insertion; assigning to
  a key that is present replaces the value in place.
\<close>

fun dict_set :: "('k \<times> 'v) list \<Rightarrow> 'k \<Rightarrow> 'v \<Rightarrow> ('k \<times> 'v) list" where
  "dict_set [] k v = [(k, v)]"
| "dict_set ((k', v') # kvs) k v =
     (if k' = k then (k, v) # kvs else (k', v') # dict_set kvs k v)"

fun execute_commands_loop ::
  "env \<Rightarrow> NetworkDevice \<Rightarrow> string list \<Rightarrow> (string \<times> string) list \<Rightarrow> io_event list
     \<Rightarrow> (string \<times> string) list \<times> io_event list" where
  "execute_commands_loop E dev [] results h = (results, h)"
| "execute_commands_loop E dev (command # commands) results h =
     (case execute_command E dev command h of
        (Inr output, h') \<Rightarrow>
          execute_commands_loop E dev commands (dict_set results command output) h'
      | (Inl e, h') \<Rightarrow>
          execute_commands_loop E dev commands
            (dict_set results command (''Error: '' @ str_exn e)) h')"

definition execute_commands ::
  "env \<Rightarrow> NetworkDevice \<Rightarrow> string list \<Rightarrow> io_event list \<Rightarrow> (string \<times> string) list \<times> io_event list" where
  "execute_commands E dev commands h = execute_commands_loop E dev commands [] h"

text \<open>
  \<open>create_device_connection\<close>: the \<open>secret\<close> entry is added only when the argument
  is truthy, that is neither \<open>None\<close> nor the empty string.
\<close>

definition create_device_connection ::
  "string \<Rightarrow> string \<Rightarrow> string \<Rightarrow> string \<Rightarrow> int \<Rightarrow> string option \<Rightarrow> NetworkDevice" where
  "create_device_connection h u p dt pt sec =
     NetworkDevice_init
       \<lparr> device_type = dt, host = h, username = u, password = p, port = pt,
         secret = (if sec = Some [] then None else sec) \<rparr>"

subsection \<open>The batch as the specification words it\<close>

text \<open>
  The specification's \<open>executeBatch\<close> answers an ordered list with one command result
  per submitted command. This second definition follows those words: it runs the
  commands one after the other with \<open>execute_command\<close> and lists, for each, the command
  text and what the call returned or raised. It is what \<open>execute_commands\<close> is compared
  with.
\<close>

fun executeBatch ::
  "env \<Rightarrow> NetworkDevice \<Rightarrow> string list \<Rightarrow> io_event list \<Rightarrow> (string \<times> (exn + string)) list" where
  "executeBatch E dev [] h = []"
| "executeBatch E dev (command # commands) h =
     (command, fst (execute_command E dev command h))
       # executeBatch E dev commands (snd (execute_command E dev command h))"

fun render :: "exn + string \<Rightarrow> string" where
  "render (Inr output) = output"
| "render (Inl e) = ''Error: '' @ str_exn e"

section \<open>The fleet pass (docs/MODIFICATION\_GUIDE.md, backend/scheduler.py)\<close>

text \<open>
  A document of the \<open>network_elements\<close> collection. MongoDB gives every document an
  \<open>_id\<close>, and the query of the pass selects on \<open>status\<close>; every other key may be
  missing. \<open>name\<close> and \<open>ip_address\<close> are \<open>None\<close> when the key is absent. The
  \<open>credentials\<close> key may be absent (\<open>None\<close>), present with the value null
  (\<open>Some None\<close>, what the model's default stores), or present with a dictionary.
\<close>

record element =
  el_id :: string
  name :: "string option"
  ip_address :: "string option"
  el_type :: string
  location :: string
  status :: string
  credentials :: "(string \<times> string) list option option"

text \<open>What the pass prints: the opening line and one line per reported device.\<close>

datatype printed =
    Starting_backup nat
  | Backed_up string
  | Failed_to_backup string string

text \<open>
  The arguments of \<open>create_device_connection\<close> are read from the document in the
  order the call lists them; a missing key raises \<open>KeyError\<close>, subscripting null raises
  \<open>TypeError\<close>, and \<open>device_type\<close> falls back to \<open>cisco_ios\<close>.
\<close>

definition element_device :: "element \<Rightarrow> exn + NetworkDevice" where
  "element_device el =
     (case ip_address el of
        None \<Rightarrow> Inl (KeyError ''ip_address'')
      | Some ip \<Rightarrow>
     (case credentials el of
        None \<Rightarrow> Inl (KeyError ''credentials'')
      | Some None \<Rightarrow>
          Inl (TypeError (CHR 0x27 # ''NoneType'' @ CHR 0x27 # '' object is not subscriptable''))
      | Some (Some creds) \<Rightarrow>
          (case map_of creds ''username'' of
             None \<Rightarrow> Inl (KeyError ''username'')
           | Some u \<Rightarrow>
               (case map_of creds ''password'' of
                  None \<Rightarrow> Inl (KeyError ''password'')
                | Some p \<Rightarrow>
                    Inr (create_device_connection ip u p
                          (case map_of creds ''device_type'' of
                             None \<Rightarrow> ''cisco_ios''
                           | Some dt \<Rightarrow> dt)
                          22 None)))))"

text \<open>
  The \<open>except\<close> handler of the loop body prints the failure with \<open>element['name']\<close>.
  When the document has no \<open>name\<close> the handler itself raises \<open>KeyError\<close>, and that
  exception leaves the loop. The first component of the result is the exception that
  escapes, if any.
\<close>

definition report_failure ::
  "element \<Rightarrow> exn \<Rightarrow> printed list \<times> io_event list \<Rightarrow> exn option \<times> printed list \<times> io_event list" where
  "report_failure el e s =
     (case s of (out, h) \<Rightarrow>
        (case name el of
           None \<Rightarrow> (Some (KeyError ''name''), out, h)
         | Some nm \<Rightarrow> (None, out @ [Failed_to_backup nm (str_exn e)], h)))"

text \<open>
  The body of the \<open>for\<close> loop with its \<open>try\<close>/\<open>except\<close>. The state is what has been
  printed so far and the history. When \<open>connect\<close> answers \<open>False\<close> the \<open>if\<close> has no
  \<open>else\<close>: nothing is printed. The backup record reads \<open>element['name']\<close> after the
  command has run. The call of \<open>disconnect\<close> is the last statement of the \<open>if\<close> branch,
  after the backup has been stored and the success line printed.
\<close>

definition backup_element ::
  "env \<Rightarrow> element \<Rightarrow> printed list \<times> io_event list \<Rightarrow> exn option \<times> printed list \<times> io_event list" where
  "backup_element E el s =
     (case s of (out, h) \<Rightarrow>
        (case element_device el of
           Inl e \<Rightarrow> report_failure el e (out, h)
         | Inr device \<Rightarrow>
             (case connect E device h of
                (ok, device', h1) \<Rightarrow>
                  if ok then
                    (case execute_command E device' ''show running-config'' h1 of
                       (Inl e, h2) \<Rightarrow> report_failure el e (out, h2)
                     | (Inr config, h2) \<Rightarrow>
                         (case name el of
                            None \<Rightarrow> report_failure el (KeyError ''name'') (out, h2)
                          | Some nm \<Rightarrow>
                              (let backup = \<lparr> element_id = el_id el, device_name = nm,
                                              config_content = config, backup_type = ''running'',
                                              file_size = length config, created_at = utcnow E h2 \<rparr>
                               in case insert_reply E h2 backup of
                                    Some e \<Rightarrow> report_failure el e (out, h2 @ [Insert backup (Some e)])
                                  | None \<Rightarrow> (None, out @ [Backed_up nm],
                                             disconnect device' (h2 @ [Insert backup None])))))
                  else (None, out, h1))))"

text \<open>The loop ends at the first exception that escapes a loop body.\<close>

fun backup_loop ::
  "env \<Rightarrow> element list \<Rightarrow> printed list \<times> io_event list \<Rightarrow> exn option \<times> printed list \<times> io_event list" where
  "backup_loop E [] s = (None, s)"
| "backup_loop E (el # els) s =
     (case backup_element E el s of
        (Some e, s') \<Rightarrow> (Some e, s')
      | (None, s') \<Rightarrow> backup_loop E els s')"

text \<open>
  The devices attempted: the active documents that have a \<open>credentials\<close> key.
\<close>

definition attempted :: "element list \<Rightarrow> element list" where
  "attempted docs =
     filter (\<lambda>el. credentials el \<noteq> None) (filter (\<lambda>el. status el = ''active'') docs)"

text \<open>
  \<open>backup_all_devices\<close>. The query on \<open>network_elements\<close> stands outside every
  \<open>try\<close>: when it raises, the pass raises. Its answer is a parameter, \<open>Inl\<close> when the
  collection cannot be read. An exception that escapes the loop is raised by the pass.
\<close>

definition backup_all_devices ::
  "env \<Rightarrow> exn + element list \<Rightarrow> io_event list \<Rightarrow> exn + printed list \<times> io_event list" where
  "backup_all_devices E collection h =
     (case collection of
        Inl e \<Rightarrow> Inl e
      | Inr docs \<Rightarrow>
          (case backup_loop E (attempted docs) ([Starting_backup (length (attempted docs))], h) of
             (Some e, s) \<Rightarrow> Inl e
           | (None, s) \<Rightarrow> Inr s))"

text \<open>The per-device lines of a pass's output.\<close>

fun is_outcome :: "printed \<Rightarrow> bool" where
  "is_outcome (Starting_backup n) = False"
| "is_outcome (Backed_up nm) = True"
| "is_outcome (Failed_to_backup nm msg) = True"

definition outcomes :: "printed list \<Rightarrow> printed list" where
  "outcomes out = filter is_outcome out"

section \<open>The scheduler (backend/scheduler.py)\<close>






section \<open>The connection manager (backend/main.py)\<close>





section \<open>Dashboard statistics (frontend/src/components/Dashboard.tsx)\<close>

text \<open>
  The dashboard receives the list of elements fetched from the API. The statistics
  only read \<open>status\<close>, compared with JavaScript's strict equality against the three
  string literals.
\<close>

record stats =
  total :: nat
  active :: nat
  inactive :: nat
  warning :: nat

definition Dashboard_stats :: "element list \<Rightarrow> stats" where
  "Dashboard_stats elements =
     \<lparr> total = length elements,
       active = length (filter (\<lambda>e. status e = ''active'') elements),
       inactive = length (filter (\<lambda>e. status e = ''inactive'') elements),
       warning = length (filter (\<lambda>e. status e = ''warning'') elements) \<rparr>"

text \<open>Elements whose status is none of the three literals.\<close>

definition other_status :: "element \<Rightarrow> bool" where
  "other_status e =
     (status e \<noteq> ''active'' \<and> status e \<noteq> ''warning'' \<and> status e \<noteq> ''inactive'')"

section \<open>Concrete devices and environments used in the evaluations\<close>

definition router1 :: element where
  "router1 = \<lparr> el_id = ''e1'', name = Some ''Router-01'', ip_address = Some ''192.168.1.1'',
       el_type = ''Router'', location = ''Data Center A'', status = ''active'',
       credentials = Some (Some [(''username'', ''admin''), (''password'', ''cisco123'')]) \<rparr>"

definition switch2 :: element where
  "switch2 = \<lparr> el_id = ''e2'', name = Some ''Switch-02'', ip_address = Some ''192.168.1.2'',
       el_type = ''Switch'', location = ''Data Center A'', status = ''active'',
       credentials = Some (Some [(''username'', ''admin''), (''password'', ''cisco123'')]) \<rparr>"

definition firewall3 :: element where
  "firewall3 = \<lparr> el_id = ''e3'', name = Some ''Firewall-03'', ip_address = Some ''192.168.1.3'',
       el_type = ''Firewall'', location = ''Data Center B'', status = ''active'',
       credentials = Some (Some [(''username'', ''admin''), (''password'', ''cisco123'')]) \<rparr>"

text \<open>A document stored without a \<open>name\<close> key.\<close>

definition nameless :: element where
  "nameless = \<lparr> el_id = ''e4'', name = None, ip_address = Some ''192.168.1.4'',
       el_type = ''Router'', location = ''Data Center B'', status = ''active'',
       credentials = Some (Some [(''username'', ''admin''), (''password'', ''cisco123'')]) \<rparr>"

definition router1_device :: NetworkDevice where
  "router1_device = create_device_connection ''192.168.1.1'' ''admin'' ''cisco123'' ''cisco_ios'' 22 None"

text \<open>Every device answers and every command returns its own text as output.\<close>

definition healthy :: env where
  "healthy = \<lparr> connect_reply = (\<lambda>h di. None),
       send_reply = (\<lambda>h c command. Inr (''output of '' @ command)),
       insert_reply = (\<lambda>h b. None),
       utcnow = (\<lambda>h. length h) \<rparr>"

text \<open>The host 192.168.1.1 cannot be reached; everything else is healthy.\<close>

definition router1_unreachable :: env where
  "router1_unreachable = healthy \<lparr> connect_reply :=
       (\<lambda>h di. if host di = ''192.168.1.1'' then Some (Exception ''connection timed out'') else None) \<rparr>"

text \<open>Devices connect, and every command raises.\<close>

definition commands_time_out :: env where
  "commands_time_out = healthy \<lparr> send_reply := (\<lambda>h c command. Inl (Exception ''timed out'')) \<rparr>"

text \<open>The command \<open>bogus-cmd\<close> raises, every other command succeeds.\<close>

definition bogus_rejected :: env where
  "bogus_rejected = healthy \<lparr> send_reply :=
       (\<lambda>h c command. if command = ''bogus-cmd'' then Inl (Exception ''Invalid input detected'')
                        else Inr (''output of '' @ command)) \<rparr>"

text \<open>The first command sent over the wire raises, every later one succeeds.\<close>

definition first_send_fails :: env where
  "first_send_fails = healthy \<lparr> send_reply :=
       (\<lambda>h c command. if sent_commands h = [] then Inl (Exception ''timed out'')
                        else Inr (''output of '' @ command)) \<rparr>"

section \<open>NetworkDevice: proofs\<close>

lemma execute_command_not_connected:
  "connection dev = None \<Longrightarrow>
     execute_command E dev command h = (Inl (Exception ''Not connected to device''), h)"
  by (simp add: execute_command_def)

lemma execute_command_connected:
  "connection dev = Some c \<Longrightarrow>
     execute_command E dev command h =
       (send_reply E h c command, h @ [Send c command (send_reply E h c command)])"
  by (simp add: execute_command_def)

lemma map_of_dict_set: "map_of (dict_set d k v) = (map_of d)(k \<mapsto> v)"
  by (induction d) (auto simp: fun_eq_iff)

lemma keys_dict_set:
  "map fst (dict_set d k v) = (if k \<in> set (map fst d) then map fst d else map fst d @ [k])"
  by (induction d) force+

lemma dict_set_fresh: "k \<notin> set (map fst d) \<Longrightarrow> dict_set d k v = d @ [(k, v)]"
  by (induction d) auto

lemma loop_step:
  "execute_commands_loop E dev (command # commands) results h =
     execute_commands_loop E dev commands
       (dict_set results command (render (fst (execute_command E dev command h))))
       (snd (execute_command E dev command h))"
  by (cases "execute_command E dev command h"; cases "fst (execute_command E dev command h)") auto


lemma loop_keys_set:
  "set (map fst (fst (execute_commands_loop E dev commands results h))) =
     set (map fst results) \<union> set commands"
proof (induction commands arbitrary: results h)
  case Nil
  show ?case by simp
next
  case (Cons command commands)
  show ?case
    unfolding loop_step Cons.IH by (auto simp: keys_dict_set)
qed

lemma loop_keys_distinct:
  "distinct (map fst results) \<Longrightarrow>
     distinct (map fst (fst (execute_commands_loop E dev commands results h)))"
proof (induction commands arbitrary: results h)
  case Nil
  then show ?case by simp
next
  case (Cons command commands)
  have "distinct (map fst (dict_set results command v))" for v
    using Cons.prems by (simp add: keys_dict_set)
  then show ?case
    unfolding loop_step by (rule Cons.IH)
qed

lemma loop_map_of:
  "map_of (fst (execute_commands_loop E dev commands results h)) =
     map_of (rev (map (\<lambda>(c, r). (c, render r)) (executeBatch E dev commands h)) @ results)"
proof (induction commands arbitrary: results h)
  case Nil
  show ?case by simp
next
  case (Cons command commands)
  show ?case
    unfolding loop_step Cons.IH by (simp add: map_of_dict_set fun_eq_iff map_add_def split: option.splits)
qed

lemma loop_distinct_list:
  "distinct (map fst results @ commands) \<Longrightarrow>
     fst (execute_commands_loop E dev commands results h) =
       results @ map (\<lambda>(c, r). (c, render r)) (executeBatch E dev commands h)"
proof (induction commands arbitrary: results h)
  case Nil
  show ?case by simp
next
  case (Cons command commands)
  let ?v = "render (fst (execute_command E dev command h))"
  have fresh: "command \<notin> set (map fst results)"
    using Cons.prems by auto
  then have ds: "dict_set results command ?v = results @ [(command, ?v)]"
    by (rule dict_set_fresh)
  have "distinct (map fst (results @ [(command, ?v)]) @ commands)"
    using Cons.prems by auto
  then show ?case
    unfolding loop_step ds by (simp add: Cons.IH)
qed

lemma sent_commands_append: "sent_commands (xs @ ys) = sent_commands xs @ sent_commands ys"
  by (induction xs rule: sent_commands.induct) auto

lemma loop_sent:
  "connection dev = Some c \<Longrightarrow>
     sent_commands (snd (execute_commands_loop E dev commands results h)) =
       sent_commands h @ commands"
proof (induction commands arbitrary: results h)
  case Nil
  show ?case by simp
next
  case (Cons command commands)
  show ?case
    unfolding loop_step
    by (simp add: Cons.IH [OF Cons.prems] execute_command_connected [OF Cons.prems]
        sent_commands_append)
qed

lemma loop_not_connected:
  "connection dev = None \<Longrightarrow>
     snd (execute_commands_loop E dev commands results h) = h"
proof (induction commands arbitrary: results h)
  case Nil
  show ?case by simp
next
  case (Cons command commands)
  show ?case
    unfolding loop_step
    by (simp add: Cons.IH [OF Cons.prems] execute_command_not_connected [OF Cons.prems])
qed

lemma loop_untouched_key:
  "k \<notin> set commands \<Longrightarrow>
     map_of (fst (execute_commands_loop E dev commands results h)) k = map_of results k"
proof (induction commands arbitrary: results h)
  case Nil
  show ?case by simp
next
  case (Cons command commands)
  from Cons.prems have "k \<noteq> command" "k \<notin> set commands" by auto
  then show ?case
    unfolding loop_step by (simp add: Cons.IH map_of_dict_set)
qed

lemma executeBatch_commands: "map fst (executeBatch E dev commands h) = commands"
  by (induction commands arbitrary: h) auto

lemma loop_error_entry:
  "k < length commands \<Longrightarrow>
   snd (executeBatch E dev commands h ! k) = Inl e \<Longrightarrow>
   commands ! k \<notin> set (drop (Suc k) commands) \<Longrightarrow>
     map_of (fst (execute_commands_loop E dev commands results h)) (commands ! k)
       = Some (''Error: '' @ str_exn e)"
proof (induction commands arbitrary: k results h)
  case Nil
  then show ?case by simp
next
  case (Cons command commands)
  show ?case
  proof (cases k)
    case 0
    with Cons.prems have r: "fst (execute_command E dev command h) = Inl e"
      and later: "command \<notin> set commands" by auto
    show ?thesis
      unfolding loop_step using 0 later
      by (simp add: loop_untouched_key map_of_dict_set r)
  next
    case (Suc j)
    with Cons.prems have "j < length commands"
      and "snd (executeBatch E dev commands (snd (execute_command E dev command h)) ! j) = Inl e"
      and "commands ! j \<notin> set (drop (Suc j) commands)" by auto
    then show ?thesis
      unfolding loop_step using Suc by (simp add: Cons.IH)
  qed
qed

text \<open>
  C1, as amended. Over an open session every command of a batch is sent, in the order
  submitted, whichever commands raise, and every command text is a key of the returned
  dictionary. When command \<open>k\<close> raises and no later command of the batch has the same
  text, the dictionary holds under that command's text the string \<open>Error:\<close> followed
  by the exception's message.
\<close>

theorem failed_command_is_contained:
  assumes "connection dev = Some c"
  shows "sent_commands (snd (execute_commands E dev commands h)) = sent_commands h @ commands
         \<and> set commands \<subseteq> fst ` set (fst (execute_commands E dev commands h))
         \<and> (\<forall>k e. k < length commands
                \<longrightarrow> snd (executeBatch E dev commands h ! k) = Inl e
                \<longrightarrow> commands ! k \<notin> set (drop (Suc k) commands)
                \<longrightarrow> map_of (fst (execute_commands E dev commands h)) (commands ! k)
                      = Some (''Error: '' @ str_exn e))"
proof -
  have "set (map fst (fst (execute_commands_loop E dev commands [] h))) = set commands"
    using loop_keys_set [of E dev commands "[]" h] by simp
  then have keys: "set commands \<subseteq> fst ` set (fst (execute_commands E dev commands h))"
    by (simp add: execute_commands_def)
  have entry: "map_of (fst (execute_commands E dev commands h)) (commands ! k)
           = Some (''Error: '' @ str_exn e)"
    if "k < length commands" and "snd (executeBatch E dev commands h ! k) = Inl e"
      and "commands ! k \<notin> set (drop (Suc k) commands)" for k e
    unfolding execute_commands_def using that by (rule loop_error_entry)
  have sent: "sent_commands (snd (execute_commands E dev commands h)) = sent_commands h @ commands"
    unfolding execute_commands_def using assms by (rule loop_sent)
  from sent keys entry show ?thesis by blast
qed

text \<open>
  C1, witness: the batch show version, bogus-cmd, show ip route on a device that rejects
  bogus-cmd.
\<close>

theorem failed_command_is_contained_witness:
  "map_of (fst (execute_commands bogus_rejected (router1_device\<lparr>connection := Some 0\<rparr>)
                  [''show version'', ''bogus-cmd'', ''show ip route''] []))
       ''bogus-cmd'' = Some ''Error: Invalid input detected''
   \<and> sent_commands (snd (execute_commands bogus_rejected (router1_device\<lparr>connection := Some 0\<rparr>)
                  [''show version'', ''bogus-cmd'', ''show ip route''] []))
       = [''show version'', ''bogus-cmd'', ''show ip route'']"
proof -
  let ?dev = "router1_device\<lparr>connection := Some 0\<rparr>"
  let ?cmds = "[''show version'', ''bogus-cmd'', ''show ip route'']"
  have a: "connection ?dev = Some 0" by simp
  have b: "(1::nat) < length ?cmds" by simp
  have c: "snd (executeBatch bogus_rejected ?dev ?cmds [] ! 1) = Inl (Exception ''Invalid input detected'')"
    by (simp add: execute_command_def bogus_rejected_def healthy_def)
  have d: "?cmds ! 1 \<notin> set (drop (Suc 1) ?cmds)" by simp
  note t = failed_command_is_contained [OF a, of bogus_rejected ?cmds "[]"]
  from t have "sent_commands (snd (execute_commands bogus_rejected ?dev ?cmds []))
                 = sent_commands [] @ ?cmds"
    by blast
  moreover from t b c d
  have "map_of (fst (execute_commands bogus_rejected ?dev ?cmds [])) (?cmds ! 1)
          = Some (''Error: '' @ str_exn (Exception ''Invalid input detected''))"
    by blast
  ultimately show ?thesis by simp
qed

text \<open>
  C1, counterexample to the claim as stated: the batch is show version twice, the first
  execution raises and the second succeeds. The dictionary is keyed by command text, so
  the second assignment replaces the first and no entry carries an error description.
\<close>

theorem later_duplicate_overwrites_error:
  "snd (executeBatch first_send_fails (router1_device\<lparr>connection := Some 0\<rparr>)
          [''show version'', ''show version''] [] ! 0) = Inl (Exception ''timed out'')
   \<and> fst (execute_commands first_send_fails (router1_device\<lparr>connection := Some 0\<rparr>)
          [''show version'', ''show version''] [])
       = [(''show version'', ''output of show version'')]"
  by (simp add: execute_commands_def execute_command_def first_send_fails_def healthy_def)

text \<open>
  C6, as amended. \<open>execute_commands\<close> returns a dictionary keyed by command text: it has
  exactly one entry per distinct command string, each holding the result of the last
  execution of that string. For every list of pairwise distinct commands it has exactly
  one result per submitted command, in the order submitted, equal entry by entry to the
  ordered list of the specification.
\<close>

theorem one_entry_per_distinct_command:
  "distinct (map fst (fst (execute_commands E dev commands h)))
   \<and> set (map fst (fst (execute_commands E dev commands h))) = set commands
   \<and> length (fst (execute_commands E dev commands h)) = card (set commands)
   \<and> map_of (fst (execute_commands E dev commands h))
       = map_of (rev (map (\<lambda>(c, r). (c, render r)) (executeBatch E dev commands h)))
   \<and> (distinct commands \<longrightarrow>
        fst (execute_commands E dev commands h)
          = map (\<lambda>(c, r). (c, render r)) (executeBatch E dev commands h)
        \<and> map fst (fst (execute_commands E dev commands h)) = commands
        \<and> length (fst (execute_commands E dev commands h)) = length commands)"
proof -
  let ?R = "fst (execute_commands E dev commands h)"
  have d: "distinct (map fst ?R)"
    unfolding execute_commands_def by (rule loop_keys_distinct) simp
  have s: "set (map fst ?R) = set commands"
    unfolding execute_commands_def using loop_keys_set [of E dev commands "[]" h] by simp
  have "length ?R = length (map fst ?R)" by simp
  also have "\<dots> = card (set (map fst ?R))"
    using d by (simp only: distinct_card)
  finally have l: "length ?R = card (set commands)"
    using s by simp
  have m: "map_of ?R = map_of (rev (map (\<lambda>(c, r). (c, render r)) (executeBatch E dev commands h)))"
    unfolding execute_commands_def by (simp add: loop_map_of)
  have e: "?R = map (\<lambda>(c, r). (c, render r)) (executeBatch E dev commands h)"
    if "distinct commands"
    unfolding execute_commands_def using that by (simp add: loop_distinct_list)
  have k: "map fst ?R = commands" if "distinct commands"
  proof -
    have "map fst (map (\<lambda>(c, r). (c, render r)) (executeBatch E dev commands h))
            = map fst (executeBatch E dev commands h)"
      by (simp add: case_prod_unfold comp_def)
    then show ?thesis
      using e [OF that] by (simp add: executeBatch_commands)
  qed
  have n: "length ?R = length commands" if "distinct commands"
    using l that by (simp add: distinct_card)
  from d s l m e k n show ?thesis by blast
qed

text \<open>C6, witness: a batch of two distinct commands, the second of which is rejected.\<close>

theorem one_entry_per_distinct_command_witness:
  "fst (execute_commands bogus_rejected (router1_device\<lparr>connection := Some 0\<rparr>)
          [''show version'', ''bogus-cmd''] [])
     = [(''show version'', ''output of show version''),
        (''bogus-cmd'', ''Error: Invalid input detected'')]"
proof -
  have d: "distinct [''show version'', ''bogus-cmd'']" by simp
  have "fst (execute_commands bogus_rejected (router1_device\<lparr>connection := Some 0\<rparr>)
          [''show version'', ''bogus-cmd''] [])
        = map (\<lambda>(c, r). (c, render r))
            (executeBatch bogus_rejected (router1_device\<lparr>connection := Some 0\<rparr>)
               [''show version'', ''bogus-cmd''] [])"
    using one_entry_per_distinct_command
            [of bogus_rejected "router1_device\<lparr>connection := Some 0\<rparr>"
                "[''show version'', ''bogus-cmd'']" "[]"] d
    by blast
  then show ?thesis
    by (simp add: execute_command_def bogus_rejected_def healthy_def)
qed

text \<open>
  C6, counterexample to the claim as stated: a batch of two commands with the same text
  returns a single entry.
\<close>

theorem duplicate_commands_share_one_entry:
  "length [''show version'', ''show version''] = 2
   \<and> fst (execute_commands healthy (router1_device\<lparr>connection := Some 0\<rparr>)
          [''show version'', ''show version''] [])
       = [(''show version'', ''output of show version'')]"
  by (simp add: execute_commands_def execute_command_def healthy_def)

text \<open>
  C7, where the code departs from the claim. The claim asks that \<open>run\<close> on a closed
  handle fail without I/O. \<open>disconnect\<close> leaves \<open>self.connection\<close> set, so the guard of
  \<open>execute_command\<close> does not fire after a close: the command is sent on the closed
  connection, and what comes back is whatever the transport answers.
\<close>

theorem run_after_close_sends:
  "connection dev = Some c \<Longrightarrow>
     execute_command E dev command (disconnect dev h)
       = (send_reply E (h @ [Close c]) c command,
          h @ [Close c, Send c command (send_reply E (h @ [Close c]) c command)])"
  by (simp add: execute_command_def disconnect_def)

text \<open>C7, the same at a concrete input: connect, disconnect, then show version.\<close>

theorem run_after_close_sends_witness:
  "execute_command healthy (fst (snd (connect healthy router1_device [])))
       ''show version''
       (disconnect (fst (snd (connect healthy router1_device [])))
          (snd (snd (connect healthy router1_device []))))
     = (Inr ''output of show version'',
        [Connect 0 (device_info router1_device) None, Close 0,
         Send 0 ''show version'' (Inr ''output of show version'')])"
proof -
  have c: "connection (fst (snd (connect healthy router1_device []))) = Some 0"
    by (simp add: connect_def healthy_def)
  show ?thesis
    using run_after_close_sends [OF c, of healthy "''show version''"
        "snd (snd (connect healthy router1_device []))"]
    by (simp add: connect_def healthy_def)
qed

text \<open>
  C8, where the code departs from the claim. After a close the handle still holds its
  connection, and a second \<open>disconnect\<close> calls the transport's \<open>disconnect\<close> again. In
  \<open>backup_all_devices\<close> the call of \<open>disconnect\<close> is skipped when the command raises:
  the pass over one device whose command times out ends with that session open.
\<close>

theorem close_twice_and_leak:
  "disconnect (fst (snd (connect healthy router1_device [])))
     (disconnect (fst (snd (connect healthy router1_device [])))
        (snd (snd (connect healthy router1_device []))))
     = [Connect 0 (device_info router1_device) None, Close 0, Close 0]
   \<and> connection (fst (snd (connect healthy router1_device []))) = Some 0
   \<and> backup_all_devices commands_time_out (Inr [router1]) []
     = Inr ([Starting_backup 1, Failed_to_backup ''Router-01'' ''timed out''],
            [Connect 0 (device_info router1_device) None,
             Send 0 ''show running-config'' (Inl (Exception ''timed out''))])
   \<and> open_sessions [Connect 0 (device_info router1_device) None,
             Send 0 ''show running-config'' (Inl (Exception ''timed out''))] = [0]"
  by (simp add: connect_def disconnect_def healthy_def commands_time_out_def backup_all_devices_def
      attempted_def router1_def backup_element_def report_failure_def element_device_def
      execute_command_def router1_device_def create_device_connection_def NetworkDevice_init_def
      open_sessions_def)

section \<open>The fleet pass: proofs\<close>

lemma open_from_append: "open_from S (xs @ ys) = open_from (open_from S xs) ys"
  by (induction xs arbitrary: S) auto

lemma peak_from_ge: "length S \<le> peak_from S xs"
  by (cases xs) auto

lemma peak_from_append:
  "peak_from S (xs @ ys) = max (peak_from S xs) (peak_from (open_from S xs) ys)"
proof (induction xs arbitrary: S)
  case Nil
  show ?case using peak_from_ge [of S ys] by simp
next
  case (Cons x xs)
  show ?case by (simp add: Cons.IH max.assoc)
qed

lemma peak_from_ge_final: "length (open_from S xs) \<le> peak_from S xs"
proof (induction xs arbitrary: S)
  case Nil
  show ?case by simp
next
  case (Cons x xs)
  show ?case using Cons.IH [of "sessions_step x S"] by simp
qed

lemma length_removeAll_le: "length (removeAll c S) \<le> length S"
  by (induction S) (auto simp: le_SucI)

text \<open>What one device adds to the history when its command raises.\<close>

lemma failing_element_events:
  assumes conn: "\<forall>h di. connect_reply E h di = None"
    and send: "\<forall>h c command. isl (send_reply E h c command)"
    and dev: "element_device el = Inr device"
    and nm: "name el = Some nm"
  shows "\<exists>e. backup_element E el (out, h)
           = (None, out @ [Failed_to_backup nm (str_exn e)],
              h @ [Connect (length h) (device_info device) None,
                   Send (length h) ''show running-config'' (Inl e)])"
proof -
  let ?h1 = "h @ [Connect (length h) (device_info device) None]"
  obtain e where e: "send_reply E ?h1 (length h) ''show running-config'' = Inl e"
    using send by (metis isl_def)
  have "backup_element E el (out, h)
           = (None, out @ [Failed_to_backup nm (str_exn e)],
              h @ [Connect (length h) (device_info device) None,
                   Send (length h) ''show running-config'' (Inl e)])"
    using conn dev nm e
    by (simp add: backup_element_def connect_def execute_command_def report_failure_def)
  then show ?thesis by blast
qed

lemma failing_loop_keeps_sessions:
  assumes conn: "\<forall>h di. connect_reply E h di = None"
    and send: "\<forall>h c command. isl (send_reply E h c command)"
  shows "\<forall>el \<in> set els. \<not> isl (element_device el) \<and> name el \<noteq> None \<Longrightarrow>
         fst (backup_loop E els (out, h)) = None
         \<and> length (open_sessions (snd (snd (backup_loop E els (out, h)))))
             = length (open_sessions h) + length els"
proof (induction els arbitrary: out h)
  case Nil
  show ?case by simp
next
  case (Cons el els)
  obtain device nm where dev: "element_device el = Inr device" and nm: "name el = Some nm"
    using Cons.prems by (cases "element_device el") auto
  obtain e where step: "backup_element E el (out, h)
           = (None, out @ [Failed_to_backup nm (str_exn e)],
              h @ [Connect (length h) (device_info device) None,
                   Send (length h) ''show running-config'' (Inl e)])"
    using failing_element_events [OF conn send dev nm] by blast
  let ?out1 = "out @ [Failed_to_backup nm (str_exn e)]"
  let ?h1 = "h @ [Connect (length h) (device_info device) None,
                   Send (length h) ''show running-config'' (Inl e)]"
  have rest: "\<forall>el \<in> set els. \<not> isl (element_device el) \<and> name el \<noteq> None"
    using Cons.prems by simp
  have one: "length (open_sessions ?h1) = length (open_sessions h) + 1"
    by (simp add: open_sessions_def open_from_append)
  show ?case
    using Cons.IH [OF rest, of ?out1 ?h1] one by (simp add: step)
qed

text \<open>
  C9, where the code departs from the claim. The claim asks that the number of sessions
  connected at the same time stay within a fixed limit whatever the size of the fleet.
  The pass handles the devices one after the other, but a device whose command raises
  is never disconnected: when every device connects and every command raises, the pass
  ends with one more open session for each device attempted, and the largest number of
  sessions open at once is at least the number of devices attempted.
\<close>

theorem every_failed_device_stays_connected:
  assumes "\<forall>h di. connect_reply E h di = None"
    and "\<forall>h c command. isl (send_reply E h c command)"
    and "\<forall>el \<in> set (attempted docs). \<not> isl (element_device el) \<and> name el \<noteq> None"
  shows "\<exists>out h'. backup_all_devices E (Inr docs) h = Inr (out, h')
           \<and> length (open_sessions h') = length (open_sessions h) + length (attempted docs)
           \<and> length (attempted docs) \<le> peak_open h'"
proof -
  let ?start = "[Starting_backup (length (attempted docs))]"
  let ?r = "backup_loop E (attempted docs) (?start, h)"
  have none: "fst ?r = None"
    and len: "length (open_sessions (snd (snd ?r))) = length (open_sessions h) + length (attempted docs)"
    using failing_loop_keeps_sessions [OF assms(1) assms(2) assms(3), of ?start h] by simp_all
  have "length (open_sessions (snd (snd ?r))) \<le> peak_open (snd (snd ?r))"
    using peak_from_ge_final [of "[]" "snd (snd ?r)"] by (simp add: open_sessions_def peak_open_def)
  then have peak: "length (attempted docs) \<le> peak_open (snd (snd ?r))"
    using len by simp
  have "backup_all_devices E (Inr docs) h = Inr (fst (snd ?r), snd (snd ?r))"
    using none by (cases ?r) (simp add: backup_all_devices_def)
  then show ?thesis
    using len peak by blast
qed

text \<open>
  C9, the same at a concrete input: three devices whose command times out leave three
  sessions connected at once.
\<close>

theorem every_failed_device_stays_connected_witness:
  "\<exists>out h'. backup_all_devices commands_time_out (Inr [router1, switch2, firewall3]) [] = Inr (out, h')
     \<and> length (open_sessions h') = 3 \<and> 3 \<le> peak_open h'"
proof -
  have a: "\<forall>h di. connect_reply commands_time_out h di = None"
    by (simp add: commands_time_out_def healthy_def)
  have b: "\<forall>h c command. isl (send_reply commands_time_out h c command)"
    by (simp add: commands_time_out_def healthy_def)
  have att: "attempted [router1, switch2, firewall3] = [router1, switch2, firewall3]"
    by (simp add: attempted_def router1_def switch2_def firewall3_def)
  have c: "\<forall>el \<in> set (attempted [router1, switch2, firewall3]).
             \<not> isl (element_device el) \<and> name el \<noteq> None"
    unfolding att by (simp add: element_device_def router1_def switch2_def firewall3_def)
  show ?thesis
    using every_failed_device_stays_connected [OF a b c, of "[]"]
    by (simp add: att open_sessions_def numeral_3_eq_3)
qed

text \<open>
  C2, where the code departs from the claim. The claim asks for exactly one outcome per
  device attempted. A pass over one active device with credentials that cannot be
  reached attempts one device and prints the opening line only: no outcome line at all.
\<close>

theorem unreachable_device_has_no_outcome:
  "length (attempted [router1]) = 1
   \<and> backup_all_devices router1_unreachable (Inr [router1]) []
     = Inr ([Starting_backup 1],
            [Connect 0 (device_info router1_device) (Some (Exception ''connection timed out''))])
   \<and> outcomes [Starting_backup 1] = []"
  by (simp add: router1_unreachable_def healthy_def backup_all_devices_def
      attempted_def router1_def backup_element_def element_device_def
      connect_def router1_device_def create_device_connection_def NetworkDevice_init_def outcomes_def)

text \<open>
  C3, where the code departs from the claim. The claim asks that a connection failure be
  recorded in the device's own outcome. When \<open>connect\<close> fails for a device, the loop
  goes on with the remaining devices, and what has been printed is as it was: the
  failure is recorded nowhere in the pass's output.
\<close>

theorem connect_failure_prints_nothing:
  "element_device el = Inr device \<Longrightarrow> connect_reply E h (device_info device) = Some e \<Longrightarrow>
     backup_loop E (el # els) (out, h)
       = backup_loop E els (out, h @ [Connect (length h) (device_info device) (Some e)])"
  by (simp add: backup_element_def connect_def)

text \<open>
  C3, the same at a concrete input: Router-01 cannot be reached, Switch-02 is backed up,
  and no line mentions Router-01.
\<close>

theorem connect_failure_prints_nothing_witness:
  "fst (snd (backup_loop router1_unreachable [router1, switch2] ([Starting_backup 2], [])))
     = [Starting_backup 2, Backed_up ''Switch-02'']"
proof -
  have a: "element_device router1 = Inr router1_device"
    by (simp add: element_device_def router1_def router1_device_def)
  have b: "connect_reply router1_unreachable [] (device_info router1_device)
             = Some (Exception ''connection timed out'')"
    by (simp add: router1_unreachable_def healthy_def router1_device_def
        create_device_connection_def NetworkDevice_init_def)
  show ?thesis
    using connect_failure_prints_nothing [OF a b, of "[switch2]" "[Starting_backup 2]"]
    by (simp add: router1_unreachable_def healthy_def switch2_def backup_element_def
        element_device_def connect_def execute_command_def disconnect_def
        create_device_connection_def NetworkDevice_init_def)
qed

text \<open>
  What holds of the pass: an exception leaves the loop only through a document without
  a name, and no device gets more than one line.
\<close>

lemma named_element_is_contained:
  "name el \<noteq> None \<Longrightarrow> fst (backup_element E el s) = None"
  by (cases s)
     (auto simp: backup_element_def report_failure_def Let_def
           split: sum.splits prod.splits option.splits)



lemma nameless_document_raises_out_of_the_pass:
  "backup_all_devices healthy (Inr [nameless, router1]) [] = Inl (KeyError ''name'')
   \<and> backup_loop healthy [nameless, router1] ([Starting_backup 2], [])
     = (Some (KeyError ''name''), [Starting_backup 2],
        [Connect 0 ((device_info router1_device)\<lparr>host := ''192.168.1.4''\<rparr>) None,
         Send 0 ''show running-config'' (Inr ''output of show running-config'')])"
  by (simp add: backup_all_devices_def attempted_def nameless_def router1_def healthy_def
      backup_element_def report_failure_def element_device_def connect_def execute_command_def
      router1_device_def create_device_connection_def NetworkDevice_init_def)

lemma backup_element_outcomes:
  "length (outcomes (fst (snd (backup_element E el (out, h))))) \<le> length (outcomes out) + 1"
  by (simp add: backup_element_def report_failure_def outcomes_def Let_def
      split: sum.splits prod.splits option.splits)

text \<open>
  What one device adds to the history when it has a name and no command and no
  insertion raises: its session is closed before the loop body ends.
\<close>

lemma backup_element_events:
  assumes send: "\<forall>h c command. \<not> isl (send_reply E h c command)"
    and ins: "\<forall>h b. insert_reply E h b = None"
    and nm: "name el = Some nm"
  shows "\<exists>evs. snd (snd (backup_element E el (out, h))) = h @ evs
           \<and> peak_from S evs \<le> length S + 1
           \<and> length (open_from S evs) \<le> length S"
proof (cases "element_device el")
  case (Inl e)
  then have "snd (snd (backup_element E el (out, h))) = h @ []"
    using nm by (simp add: backup_element_def report_failure_def)
  then show ?thesis by fastforce
next
  case (Inr device)
  show ?thesis
  proof (cases "connect_reply E h (device_info device)")
    case (Some e)
    with Inr have "snd (snd (backup_element E el (out, h)))
        = h @ [Connect (length h) (device_info device) (Some e)]"
      by (simp add: backup_element_def connect_def)
    then show ?thesis by fastforce
  next
    case None
    let ?c = "length h"
    let ?h1 = "h @ [Connect ?c (device_info device) None]"
    obtain config where cfg: "send_reply E ?h1 ?c ''show running-config'' = Inr config"
      using send by (metis isl_def sum.exhaust_sel sum.collapse(2))
    let ?h2 = "?h1 @ [Send ?c ''show running-config'' (Inr config)]"
    let ?b = "\<lparr> element_id = el_id el, device_name = nm,
                 config_content = config, backup_type = ''running'',
                 file_size = length config, created_at = utcnow E ?h2 \<rparr>"
    let ?evs = "[Connect ?c (device_info device) None,
                 Send ?c ''show running-config'' (Inr config), Insert ?b None, Close ?c]"
    have "snd (snd (backup_element E el (out, h))) = h @ ?evs"
      using Inr None cfg ins nm
      by (simp add: backup_element_def connect_def execute_command_def disconnect_def Let_def)
    moreover have "peak_from S ?evs \<le> length S + 1"
      using length_removeAll_le [of ?c S] by (simp add: le_SucI)
    moreover have "length (open_from S ?evs) \<le> length S"
      using length_removeAll_le [of ?c S] by simp
    ultimately show ?thesis by blast
  qed
qed

lemma backup_element_bounded:
  assumes send: "\<forall>h c command. \<not> isl (send_reply E h c command)"
    and ins: "\<forall>h b. insert_reply E h b = None"
    and nm: "name el = Some nm"
  shows "length (open_sessions (snd (snd (backup_element E el (out, h))))) \<le> length (open_sessions h)
         \<and> peak_open (snd (snd (backup_element E el (out, h))))
             \<le> max (peak_open h) (length (open_sessions h) + 1)"
proof -
  obtain evs where e: "snd (snd (backup_element E el (out, h))) = h @ evs"
    and p: "peak_from (open_from [] h) evs \<le> length (open_from [] h) + 1"
    and l: "length (open_from (open_from [] h) evs) \<le> length (open_from [] h)"
    using backup_element_events [OF send ins nm, of out h "open_from [] h"] by blast
  show ?thesis
    using p l by (simp add: e open_sessions_def peak_open_def open_from_append peak_from_append)
qed

text \<open>
  Without a raising command or insertion and with every document named, the loop has
  at most one session more open than it found, and leaves no more open than it found.
\<close>

lemma backup_loop_bounded:
  assumes send: "\<forall>h c command. \<not> isl (send_reply E h c command)"
    and ins: "\<forall>h b. insert_reply E h b = None"
  shows "\<forall>el \<in> set els. name el \<noteq> None \<Longrightarrow>
         length (open_sessions (snd (snd (backup_loop E els (out, h))))) \<le> length (open_sessions h)
         \<and> peak_open (snd (snd (backup_loop E els (out, h))))
             \<le> max (peak_open h) (length (open_sessions h) + 1)"
proof (induction els arbitrary: out h)
  case Nil
  show ?case by simp
next
  case (Cons el els)
  obtain nm where nm: "name el = Some nm"
    using Cons.prems by auto
  have rest: "\<forall>el \<in> set els. name el \<noteq> None"
    using Cons.prems by simp
  have "fst (backup_element E el (out, h)) = None"
    using nm by (simp add: named_element_is_contained)
  then obtain out1 h1 where s1: "backup_element E el (out, h) = (None, out1, h1)"
    by (cases "backup_element E el (out, h)") auto
  have b1: "length (open_sessions h1) \<le> length (open_sessions h)"
    and p1: "peak_open h1 \<le> max (peak_open h) (length (open_sessions h) + 1)"
    using backup_element_bounded [OF send ins nm, of out h] s1 by simp_all
  have b2: "length (open_sessions (snd (snd (backup_loop E els (out1, h1))))) \<le> length (open_sessions h1)"
    and p2: "peak_open (snd (snd (backup_loop E els (out1, h1))))
               \<le> max (peak_open h1) (length (open_sessions h1) + 1)"
    using Cons.IH [OF rest, of out1 h1] by simp_all
  show ?case
    using b1 p1 b2 p2 by (simp add: s1)
qed

section \<open>The scheduler: proofs\<close>










section \<open>The connection manager: proofs\<close>








section \<open>Dashboard: proofs\<close>

lemma three_way_count:
  "length (filter (\<lambda>e. status e = ''active'') es)
     + length (filter (\<lambda>e. status e = ''warning'') es)
     + length (filter (\<lambda>e. status e = ''inactive'') es)
     + length (filter other_status es) = length es"
  by (induction es) (auto simp: other_status_def)

text \<open>
  C10. For every list of elements the displayed Total is the length of the list; Active,
  Warning and Inactive are the numbers of elements whose status is exactly the string
  active, warning or inactive; every element with another status is counted in Total
  and in none of the three categories, so the three counts together with the number of
  such elements add up to Total, and Active + Warning + Inactive is at most Total.
\<close>

theorem dashboard_counts:
  "total (Dashboard_stats es) = length es
   \<and> active (Dashboard_stats es) = length (filter (\<lambda>e. status e = ''active'') es)
   \<and> warning (Dashboard_stats es) = length (filter (\<lambda>e. status e = ''warning'') es)
   \<and> inactive (Dashboard_stats es) = length (filter (\<lambda>e. status e = ''inactive'') es)
   \<and> active (Dashboard_stats es) + warning (Dashboard_stats es) + inactive (Dashboard_stats es)
       + length (filter other_status es) = total (Dashboard_stats es)
   \<and> active (Dashboard_stats es) + warning (Dashboard_stats es) + inactive (Dashboard_stats es)
       \<le> total (Dashboard_stats es)"
  using three_way_count [of es] by (simp add: Dashboard_stats_def)

theorem dashboard_counts_witness:
  "total (Dashboard_stats
      [\<lparr> el_id = ''1'', name = Some ''Router-01'', ip_address = Some ''192.168.1.1'', el_type = ''Router'',
          location = ''Data Center A'', status = ''active'', credentials = None \<rparr>,
       \<lparr> el_id = ''2'', name = Some ''Switch-02'', ip_address = Some ''192.168.1.2'', el_type = ''Switch'',
          location = ''Data Center A'', status = ''maintenance'', credentials = None \<rparr>]) = 2
   \<and> active (Dashboard_stats
      [\<lparr> el_id = ''1'', name = Some ''Router-01'', ip_address = Some ''192.168.1.1'', el_type = ''Router'',
          location = ''Data Center A'', status = ''active'', credentials = None \<rparr>,
       \<lparr> el_id = ''2'', name = Some ''Switch-02'', ip_address = Some ''192.168.1.2'', el_type = ''Switch'',
          location = ''Data Center A'', status = ''maintenance'', credentials = None \<rparr>]) = 1"
  using dashboard_counts [of
      "[\<lparr> el_id = ''1'', name = Some ''Router-01'', ip_address = Some ''192.168.1.1'', el_type = ''Router'',
          location = ''Data Center A'', status = ''active'', credentials = None \<rparr>,
       \<lparr> el_id = ''2'', name = Some ''Switch-02'', ip_address = Some ''192.168.1.2'', el_type = ''Switch'',
          location = ''Data Center A'', status = ''maintenance'', credentials = None \<rparr>]"]
  by simp

end
